theory Spec2Isabelle
  imports Complex_Main "HOL-Library.Word" "HOL-Library.Sublist"
begin

section \<open>The HEC generator connection (generators/base/hec.go)\<close>

subsection \<open>Errors and results\<close>

text \<open>
  A Go \<open>error\<close> is observed through its text. \<open>Errorf\<close> stands for the errors this
  file builds itself (\<open>errors.New\<close>, \<open>fmt.Errorf\<close>); the other constructors are errors
  handed back by libraries.
\<close>

datatype error =
    Errorf string
  | ErrClosedPipe
  | MarshalerError
  | LibError string

text \<open>
  A call either returns, panics (a nil dereference), or blocks for ever (a receive on a
  channel nobody will send to or close).
\<close>

datatype 'a res = Ret 'a | Panic | Blocks

subsection \<open>Data\<close>

text \<open>
  Modelled from the spec: the types \<open>entry.EntryTag\<close>, \<open>entry.Timestamp\<close> and
  \<open>entry.Entry\<close> of the package ingest/entry, whose declarations are not among the
  sources. The spec calls the tag a short numeric identifier, a small non-negative
  integer: an unsigned 16-bit value. A timestamp is seconds and a nanosecond remainder:
  two signed 64-bit fields, the seconds counted from January 1 of year 1, as the shift
  by \<open>unixToInternal\<close> in \<open>timeFloat\<close> takes them. An entry is a timestamp, a tag and the
  payload bytes. A byte is a \<open>char\<close>. The field \<open>Tag\<close> of an entry is called \<open>Tag_of\<close>
  here, since \<open>Tag\<close> is the default tag name of the configuration.
\<close>

type_synonym EntryTag = "16 word"

record Timestamp =
  Sec :: "64 word"
  Nsec :: "64 word"

record Entry =
  TS :: Timestamp
  Tag_of :: EntryTag
  Data :: string

text \<open>
  Modelled from the spec: \<open>GeneratorConfig\<close>, declared in another file of the package,
  with the fields hec.go reads: the destination URL, the default tag name, the
  credential and the flag of raw mode.
\<close>

record GeneratorConfig =
  HEC :: string
  Tag :: string
  Auth :: string
  modeHECRaw :: bool

record URL =
  Host :: string

text \<open>
  \<open>io.Pipe\<close>, seen from the writing side. \<open>body\<close> holds the bytes the reader has
  taken (the request body so far), \<open>wclosed\<close> says that the write side was closed, and
  \<open>room\<close> is how many more bytes the reading side takes before it goes away
  (\<open>None\<close>: it keeps reading).
\<close>

record pipe =
  body :: string
  wclosed :: bool
  room :: "nat option"

text \<open>
  \<open>make(chan error, 1)\<close>: the queued values (\<open>None\<close> is a nil error) and whether the
  channel was closed.
\<close>

record chan =
  buf :: "error option list"
  closed :: bool

text \<open>
  What the HTTP exchange of the connection yields: \<open>http.NewRequest\<close> fails, or
  \<open>cli.Do\<close> fails, or a response arrives. The body of a response is the bytes that can
  be read from it and how the reading ends (\<open>None\<close>: end of file).
\<close>

record Response =
  StatusCode :: int
  Status :: string
  Body :: "string \<times> error option"

datatype http_result = NewRequestFails error | DoFails error | Responds Response

text \<open>
  The goroutine running \<open>httpRoutine\<close>: not started, running towards its one send,
  past the send with the deferred \<open>close(hec.errch)\<close> still to run, or gone.
\<close>

datatype routine_state = NotStarted | Running http_result | Sent | Exited

text \<open>
  The connection. \<open>src\<close> is \<open>None\<close> for a nil \<open>net.IP\<close> and \<open>wtr\<close> is \<open>None\<close> for a
  nil writer. \<open>routine\<close> is not a field of the Go struct: it is the goroutine that
  \<open>newHecConn\<close> starts, which shares \<open>errch\<close> and the pipe with the caller.
\<close>

record hecIgst = GeneratorConfig +
  name :: string
  auth :: string
  uri :: URL
  to :: int
  src :: "string option"
  tags :: "EntryTag \<rightharpoonup> string"
  errch :: chan
  wtr :: "pipe option"
  routine :: routine_state

subsection \<open>The tag table\<close>

definition LookupTag :: "hecIgst \<Rightarrow> EntryTag \<Rightarrow> string \<times> bool" where
  "LookupTag hec tag = (case tags hec tag of Some v \<Rightarrow> (v, True) | None \<Rightarrow> ([], False))"

text \<open>
  \<open>for k, vv := range hec.tags { if v == vv { tag = k; return } }\<close>. Go visits the keys
  of a map in an order of its own choosing; \<open>ks\<close> is the order of this visit.
\<close>

fun range_tags :: "EntryTag list \<Rightarrow> (EntryTag \<rightharpoonup> string) \<Rightarrow> string \<Rightarrow> EntryTag option" where
  "range_tags [] m v = None"
| "range_tags (k # ks) m v =
     (case m k of
        Some vv \<Rightarrow> if v = vv then Some k else range_tags ks m v
      | None \<Rightarrow> range_tags ks m v)"

text \<open>
  \<open>ingest.CheckTag\<close> is not part of this file: it is the parameter \<open>CheckTag\<close>.
  \<open>entry.EntryTag(len(hec.tags))\<close> converts an int to 16 bits, which \<open>of_nat\<close> does.
\<close>

definition NegotiateTag ::
  "(string \<Rightarrow> error option) \<Rightarrow> EntryTag list \<Rightarrow> hecIgst \<Rightarrow> string
     \<Rightarrow> (EntryTag \<times> error option) \<times> hecIgst" where
  "NegotiateTag CheckTag ks hec v =
     (case CheckTag v of
        Some err \<Rightarrow> ((0, Some err), hec)
      | None \<Rightarrow>
          (case range_tags ks (tags hec) v of
             Some k \<Rightarrow> ((k, None), hec)
           | None \<Rightarrow>
               (let tag = (of_nat (card (dom (tags hec))) :: EntryTag)
                in ((tag, None), hec\<lparr>tags := (tags hec)(tag \<mapsto> v)\<rparr>))))"


subsection \<open>Timestamps\<close>

definition secondsPerHour :: int where "secondsPerHour = 60 * 60"
definition secondsPerDay :: int where "secondsPerDay = 24 * secondsPerHour"
definition unixToInternal :: int where
  "unixToInternal = (1969 * 365 + 1969 div 4 - 1969 div 100 + 1969 div 400) * secondsPerDay"

text \<open>
  \<open>float64\<close> is idealised: the result is the exact real number, with no rounding. The
  comparison and the subtraction are those of \<open>int64\<close>.
\<close>

definition timeFloat :: "Timestamp \<Rightarrow> real" where
  "timeFloat ts =
     (if Sec ts <s word_of_int unixToInternal then 0
      else real_of_int (sint (Sec ts - word_of_int unixToInternal))
             + real_of_int (sint (Nsec ts)) / real_of_int 1000000000)"

subsection \<open>Writing to the pipe\<close>

text \<open>
  \<open>PipeWriter.Write\<close>: on a pipe closed at either end nothing is written; otherwise the
  reader takes the bytes, all of them or as many as it will still take.
\<close>

definition pipe_Write :: "string \<Rightarrow> pipe \<Rightarrow> error option \<times> pipe" where
  "pipe_Write bs p =
     (if wclosed p \<or> room p = Some 0 then (Some ErrClosedPipe, p)
      else (case room p of
              None \<Rightarrow> (None, p\<lparr>body := body p @ bs\<rparr>)
            | Some n \<Rightarrow>
                if length bs \<le> n
                then (None, p\<lparr>body := body p @ bs, room := Some (n - length bs)\<rparr>)
                else (Some ErrClosedPipe, p\<lparr>body := body p @ take n bs, room := Some 0\<rparr>)))"

definition pipe_Close :: "pipe \<Rightarrow> pipe" where
  "pipe_Close p = p\<lparr>wclosed := True\<rparr>"

definition newline :: string where
  "newline = [CHR 0x0A]"

text \<open>\<open>sendRaw\<close> reads \<open>ent.Data\<close> of a pointer: a nil entry panics.\<close>

definition sendRaw :: "hecIgst \<Rightarrow> Entry option \<Rightarrow> error option res \<times> hecIgst" where
  "sendRaw hec ent =
     (case ent of
        None \<Rightarrow> (Panic, hec)
      | Some e \<Rightarrow>
          (case wtr hec of
             None \<Rightarrow> (Panic, hec)
           | Some p \<Rightarrow>
               (case pipe_Write (Data e) p of
                  (Some err, p') \<Rightarrow> (Ret (Some err), hec\<lparr>wtr := Some p'\<rparr>)
                | (None, p') \<Rightarrow>
                    (case pipe_Write newline p' of
                       (Some err, p'') \<Rightarrow> (Ret (Some err), hec\<lparr>wtr := Some p''\<rparr>)
                     | (None, p'') \<Rightarrow> (Ret None, hec\<lparr>wtr := Some p''\<rparr>)))))"

subsection \<open>The JSON encoder (encoding/json, as far as \<open>hecent\<close> needs it)\<close>

text \<open>
  A \<open>json.RawMessage\<close> is checked by the encoder before it is copied into the output:
  the scanner below accepts the JSON grammar (a value between optional white space), and
  the fuel of \<open>scan_value\<close> is more than any text of that length can use.
\<close>

definition dq :: string where
  "dq = [CHR 0x22]"

definition is_ws :: "char \<Rightarrow> bool" where
  "is_ws c = (c \<in> set [CHR '' '', CHR 0x09, CHR 0x0D, CHR 0x0A])"

definition is_digit :: "char \<Rightarrow> bool" where
  "is_digit c = (c \<in> set ''0123456789'')"

definition is_hex :: "char \<Rightarrow> bool" where
  "is_hex c = (c \<in> set ''0123456789abcdefABCDEF'')"

definition skip_ws :: "string \<Rightarrow> string" where
  "skip_ws s = dropWhile is_ws s"

fun scan_string :: "string \<Rightarrow> string option" where
  "scan_string [] = None"
| "scan_string (c # cs) =
     (if c = CHR 0x22 then Some cs
      else if c = CHR 0x5C then
        (case cs of
           [] \<Rightarrow> None
         | e # r \<Rightarrow>
             if e \<in> set [CHR 0x22, CHR 0x5C, CHR ''/'', CHR ''b'', CHR ''f'', CHR ''n'', CHR ''r'', CHR ''t'']
             then scan_string r
             else if e = CHR ''u'' then
               (case r of
                  h1 # h2 # h3 # h4 # r' \<Rightarrow>
                    if is_hex h1 \<and> is_hex h2 \<and> is_hex h3 \<and> is_hex h4 then scan_string r' else None
                | _ \<Rightarrow> None)
             else None)
      else if (of_char c :: nat) < 0x20 then None
      else scan_string cs)"

definition scan_exp :: "string \<Rightarrow> string option" where
  "scan_exp s =
     (case s of
        [] \<Rightarrow> Some []
      | c # r \<Rightarrow>
          if c = CHR ''e'' \<or> c = CHR ''E'' then
            (case (case r of [] \<Rightarrow> r | sg # r' \<Rightarrow> if sg = CHR ''+'' \<or> sg = CHR ''-'' then r' else r) of
               [] \<Rightarrow> None
             | d # r2 \<Rightarrow> if is_digit d then Some (dropWhile is_digit r2) else None)
          else Some s)"

definition scan_frac :: "string \<Rightarrow> string option" where
  "scan_frac s =
     (case s of
        [] \<Rightarrow> Some []
      | c # r \<Rightarrow>
          if c = CHR ''.'' then
            (case r of
               [] \<Rightarrow> None
             | d # r' \<Rightarrow> if is_digit d then scan_exp (dropWhile is_digit r') else None)
          else scan_exp s)"

definition scan_number :: "string \<Rightarrow> string option" where
  "scan_number s =
     (case (case s of [] \<Rightarrow> s | c # r \<Rightarrow> if c = CHR ''-'' then r else s) of
        [] \<Rightarrow> None
      | c # r \<Rightarrow>
          if c = CHR ''0'' then scan_frac r
          else if is_digit c then scan_frac (dropWhile is_digit r)
          else None)"

definition scan_literal :: "string \<Rightarrow> string option" where
  "scan_literal s =
     (if take 4 s = ''true'' then Some (drop 4 s)
      else if take 5 s = ''false'' then Some (drop 5 s)
      else if take 4 s = ''null'' then Some (drop 4 s)
      else None)"

fun scan_value :: "nat \<Rightarrow> string \<Rightarrow> string option"
  and scan_elems :: "nat \<Rightarrow> string \<Rightarrow> string option"
  and scan_members :: "nat \<Rightarrow> string \<Rightarrow> string option" where
  "scan_value 0 s = None"
| "scan_value (Suc n) s =
     (case skip_ws s of
        [] \<Rightarrow> None
      | c # r \<Rightarrow>
          if c = CHR ''{'' then
            (case skip_ws r of
               [] \<Rightarrow> None
             | c' # r' \<Rightarrow> if c' = CHR ''}'' then Some r' else scan_members n (c' # r'))
          else if c = CHR ''['' then
            (case skip_ws r of
               [] \<Rightarrow> None
             | c' # r' \<Rightarrow> if c' = CHR '']'' then Some r' else scan_elems n (c' # r'))
          else if c = CHR 0x22 then scan_string r
          else if c = CHR ''-'' \<or> is_digit c then scan_number (c # r)
          else scan_literal (c # r))"
| "scan_elems 0 s = None"
| "scan_elems (Suc n) s =
     (case scan_value n s of
        None \<Rightarrow> None
      | Some r \<Rightarrow>
          (case skip_ws r of
             [] \<Rightarrow> None
           | c # r' \<Rightarrow>
               if c = CHR '','' then scan_elems n r'
               else if c = CHR '']'' then Some r'
               else None))"
| "scan_members 0 s = None"
| "scan_members (Suc n) s =
     (case skip_ws s of
        [] \<Rightarrow> None
      | c # r \<Rightarrow>
          if c = CHR 0x22 then
            (case scan_string r of
               None \<Rightarrow> None
             | Some r1 \<Rightarrow>
                 (case skip_ws r1 of
                    [] \<Rightarrow> None
                  | c1 # r2 \<Rightarrow>
                      if c1 = CHR '':'' then
                        (case scan_value n r2 of
                           None \<Rightarrow> None
                         | Some r3 \<Rightarrow>
                             (case skip_ws r3 of
                                [] \<Rightarrow> None
                              | c3 # r4 \<Rightarrow>
                                  if c3 = CHR '','' then scan_members n r4
                                  else if c3 = CHR ''}'' then Some r4
                                  else None))
                      else None))
          else None)"

definition json_valid :: "string \<Rightarrow> bool" where
  "json_valid s =
     (case scan_value (2 * length s + 2) s of
        None \<Rightarrow> False
      | Some r \<Rightarrow> skip_ws r = [])"

text \<open>
  The encoder copies a valid \<open>RawMessage\<close> compacted: white space outside strings is
  dropped, and \<open><\<close>, \<open>>\<close>, \<open>&\<close> and the line separators U+2028 and U+2029 are written
  as \<open>\u\<close> escapes.
\<close>

text \<open>The digit of a number below 16 (\<open>hex[c&0xF]\<close>); below 10 it is the decimal digit.\<close>

definition hexdigit :: "nat \<Rightarrow> char" where
  "hexdigit n = ''0123456789abcdef'' ! (n mod 16)"

datatype cstate = Outside | InString | Escaped

definition cnext :: "cstate \<Rightarrow> char \<Rightarrow> cstate" where
  "cnext st c =
     (case st of
        Outside \<Rightarrow> if c = CHR 0x22 then InString else Outside
      | InString \<Rightarrow> if c = CHR 0x5C then Escaped else if c = CHR 0x22 then Outside else InString
      | Escaped \<Rightarrow> InString)"

definition cout :: "cstate \<Rightarrow> char \<Rightarrow> string" where
  "cout st c =
     (if c = CHR ''<'' \<or> c = CHR ''>'' \<or> c = CHR ''&''
      then [CHR 0x5C] @ ''u00'' @ [hexdigit (of_char c div 16), hexdigit (of_char c)]
      else if st = Outside \<and> is_ws c then []
      else [c])"

function compact_bytes :: "cstate \<Rightarrow> string \<Rightarrow> string" where
  "compact_bytes st [] = []"
| "compact_bytes st (c # cs) =
     (if c = CHR 0xE2 \<and> (take 2 cs = [CHR 0x80, CHR 0xA8] \<or> take 2 cs = [CHR 0x80, CHR 0xA9])
      then [CHR 0x5C] @ ''u202'' @ [hexdigit (of_char (cs ! 1))] @ compact_bytes st (drop 2 cs)
      else cout st c @ compact_bytes (cnext st c) cs)"
  by pat_completeness auto
termination
  by (relation "measure (\<lambda>(st, s). length s)") auto

definition compactJSON :: "string \<Rightarrow> string option" where
  "compactJSON s = (if json_valid s then Some (compact_bytes Outside s) else None)"

text \<open>
  The encoder's string quoting and its formatting of a \<open>float64\<close> are parameters:
  \<open>quoteString\<close> is \<open>json.Marshal\<close> of a string (it cannot fail), \<open>formatFloat\<close> the text
  of a number.
\<close>

record json_lib =
  quoteString :: "string \<Rightarrow> string"
  formatFloat :: "real \<Rightarrow> string"

record hecent =
  Event :: string
  Time :: real
  ST :: string

definition field :: "string \<Rightarrow> string \<Rightarrow> string" where
  "field k v = dq @ k @ dq @ '':'' @ v"

fun join_comma :: "string list \<Rightarrow> string" where
  "join_comma [] = []"
| "join_comma [x] = x"
| "join_comma (x # y # zs) = x @ '','' @ join_comma (y # zs)"

text \<open>
  \<open>json.Marshal\<close> of a \<open>hecent\<close>: the three fields in the order of the struct, each
  left out when empty (\<open>omitempty\<close>); an \<open>Event\<close> that is not JSON is an error.
\<close>

definition Marshal_hecent :: "json_lib \<Rightarrow> hecent \<Rightarrow> error + string" where
  "Marshal_hecent J v =
     (case (if Event v = [] then Some []
            else map_option (\<lambda>j. [field ''event'' j]) (compactJSON (Event v))) of
        None \<Rightarrow> Inl MarshalerError
      | Some ev \<Rightarrow>
          Inr (''{'' @ join_comma
                 (ev
                  @ (if Time v = 0 then [] else [field ''time'' (formatFloat J (Time v))])
                  @ (if ST v = [] then [] else [field ''sourcetype'' (quoteString J (ST v))]))
               @ ''}''))"

text \<open>
  \<open>json.NewEncoder(hec.wtr).Encode(v)\<close>: nothing is written when marshalling fails;
  otherwise the text and a newline go out in one write.
\<close>

definition Encode :: "json_lib \<Rightarrow> hecIgst \<Rightarrow> hecent \<Rightarrow> error option res \<times> hecIgst" where
  "Encode J hec v =
     (case Marshal_hecent J v of
        Inl err \<Rightarrow> (Ret (Some err), hec)
      | Inr b \<Rightarrow>
          (case wtr hec of
             None \<Rightarrow> (Panic, hec)
           | Some p \<Rightarrow>
               (case pipe_Write (b @ newline) p of
                  (e, p') \<Rightarrow> (Ret e, hec\<lparr>wtr := Some p'\<rparr>))))"

subsection \<open>Event mode and the write methods\<close>

text \<open>
  \<open>setData\<close> with the package variable \<open>osc\<close> passed in and out. \<open>json.Marshal\<close> of a
  string does not fail, so the final \<open>return nil\<close> is never reached.
\<close>

definition setData :: "json_lib \<Rightarrow> bool \<Rightarrow> string \<Rightarrow> string \<times> bool" where
  "setData J osc data =
     (if length data \<ge> 2 \<and> hd data = CHR ''{'' \<and> last data = CHR ''}''
      then (if \<not> osc then (data, \<not> osc) else (quoteString J data, \<not> osc))
      else (quoteString J data, osc))"

definition sendEvent :: "json_lib \<Rightarrow> hecIgst \<Rightarrow> Entry option \<Rightarrow> error option res \<times> hecIgst" where
  "sendEvent J hec ent =
     (case ent of
        None \<Rightarrow> (Ret None, hec)
      | Some e \<Rightarrow>
          Encode J hec \<lparr>Event = Data e, Time = timeFloat (TS e), ST = Tag hec\<rparr>)"

definition WriteEntry :: "json_lib \<Rightarrow> hecIgst \<Rightarrow> Entry option \<Rightarrow> error option res \<times> hecIgst" where
  "WriteEntry J hec ent = (if modeHECRaw hec then sendRaw hec ent else sendEvent J hec ent)"

definition Write ::
  "json_lib \<Rightarrow> hecIgst \<Rightarrow> Timestamp \<Rightarrow> EntryTag \<Rightarrow> string \<Rightarrow> error option res \<times> hecIgst" where
  "Write J hec ts tag data = WriteEntry J hec (Some \<lparr>TS = ts, Tag_of = tag, Data = data\<rparr>)"

fun WriteBatch :: "json_lib \<Rightarrow> hecIgst \<Rightarrow> Entry option list \<Rightarrow> error option res \<times> hecIgst" where
  "WriteBatch J hec [] = (Ret None, hec)"
| "WriteBatch J hec (v # ents) =
     (case WriteEntry J hec v of
        (Ret None, hec') \<Rightarrow> WriteBatch J hec' ents
      | (r, hec') \<Rightarrow> (r, hec'))"

subsection \<open>Construction\<close>

text \<open>
  The calls into \<open>net/url\<close> and \<open>net\<close> are parameters. A connection to the remote end
  is known by its local address and by what closing it returns. \<open>ParseIP\<close> gives
  \<open>None\<close> for the nil address that \<open>net.ParseIP\<close> returns on a text it cannot parse.
\<close>

record TCPConn =
  LocalAddr :: string
  conn_Close :: "error option"

record net =
  url_Parse :: "string \<Rightarrow> error + URL"
  ResolveTCPAddr :: "string \<Rightarrow> error + string"
  DialTCP :: "string \<Rightarrow> error + TCPConn"
  SplitHostPort :: "string \<Rightarrow> error + string \<times> string"
  ParseIP :: "string \<Rightarrow> string option"

definition test :: "net \<Rightarrow> hecIgst \<Rightarrow> (string option \<times> error option) \<times> hecIgst" where
  "test N hec =
     (case ResolveTCPAddr N (Host (uri hec)) of
        Inl err \<Rightarrow> ((None, Some err), hec)
      | Inr raddr \<Rightarrow>
          (case DialTCP N raddr of
             Inl err \<Rightarrow> ((None, Some err), hec)
           | Inr conn \<Rightarrow>
               (case SplitHostPort N (LocalAddr conn) of
                  Inl err \<Rightarrow> ((None, Some err), hec)
                | Inr (ipstr, port) \<Rightarrow>
                    (let hec' = hec\<lparr>src := ParseIP N ipstr\<rparr>
                     in ((src hec', conn_Close conn), hec')))))"

text \<open>
  \<open>newHecConn\<close> returns the pair \<open>(hec, err)\<close> of its named results; the pointer is
  \<open>None\<close> when nil. \<open>hecIgst_literal\<close> is the struct literal it starts from. \<open>http\<close>
  is what the request of the new goroutine will yield and \<open>rm\<close> how much the reading
  side of the pipe will take.
\<close>

definition hecIgst_literal :: "string \<Rightarrow> GeneratorConfig \<Rightarrow> int \<Rightarrow> URL \<Rightarrow> hecIgst" where
  "hecIgst_literal nm gc t u =
     \<lparr>HEC = HEC gc, Tag = Tag gc, Auth = Auth gc, modeHECRaw = modeHECRaw gc,
      name = nm, auth = ''Splunk '' @ Auth gc, uri = u, to = t, src = None,
      tags = [0 \<mapsto> Tag gc], errch = \<lparr>buf = [], closed = False\<rparr>,
      wtr = None, routine = NotStarted\<rparr>"

definition newHecConn ::
  "net \<Rightarrow> http_result \<Rightarrow> nat option \<Rightarrow> string \<Rightarrow> GeneratorConfig \<Rightarrow> int
     \<Rightarrow> hecIgst option \<times> error option" where
  "newHecConn N http rm nm gc t =
     (case url_Parse N (HEC gc) of
        Inl err \<Rightarrow> (None, Some err)
      | Inr u \<Rightarrow>
          (case test N (hecIgst_literal nm gc t u) of
             ((ip, err), hec1) \<Rightarrow>
               (let hec2 = hec1\<lparr>src := ip\<rparr>
                in (case err of
                      Some e \<Rightarrow> (Some hec2, Some e)
                    | None \<Rightarrow>
                        (Some (hec2\<lparr>routine := Running http,
                                    wtr := Some \<lparr>body = [], wclosed = False, room = rm\<rparr>\<rparr>),
                         None)))))"

definition SourceIP :: "hecIgst \<Rightarrow> string option \<times> error option" where
  "SourceIP hec = (src hec, None)"

subsection \<open>The upload goroutine and \<open>Close\<close>\<close>

text \<open>The verb \<open>%d\<close> of \<open>fmt\<close>: a number in decimal digits.\<close>

function dec_nat :: "nat \<Rightarrow> string" where
  "dec_nat n = (if n < 10 then [hexdigit n] else dec_nat (n div 10) @ [hexdigit (n mod 10)])"
  by pat_completeness auto
termination
  by (relation "measure id") auto

definition dec_int :: "int \<Rightarrow> string" where
  "dec_int i = (if i < 0 then ''-'' @ dec_nat (nat (- i)) else dec_nat (nat i))"

text \<open>
  \<open>ioutil.ReadAll\<close> of an \<open>io.LimitedReader\<close> of \<open>n\<close> bytes: the first \<open>n\<close> bytes
  when the body has that many, otherwise all its bytes and the way its reading ended.
\<close>

definition ReadAll_limited :: "nat \<Rightarrow> string \<times> error option \<Rightarrow> string \<times> error option" where
  "ReadAll_limited n b =
     (case b of (bytes, e) \<Rightarrow> if n \<le> length bytes then (take n bytes, None) else (bytes, e))"

text \<open>The value \<open>httpRoutine\<close> sends on \<open>hec.errch\<close>.\<close>

definition httpRoutine_result :: "http_result \<Rightarrow> error option" where
  "httpRoutine_result h =
     (case h of
        NewRequestFails err \<Rightarrow> Some err
      | DoFails err \<Rightarrow> Some err
      | Responds resp \<Rightarrow>
          if StatusCode resp \<noteq> 200 then
            (let msg = (case ReadAll_limited 512 (Body resp) of
                          (b, None) \<Rightarrow> b
                        | (b, Some err) \<Rightarrow> [])
             in Some (Errorf (''invalid status '' @ dec_int (StatusCode resp) @ '' (''
                              @ Status resp @ '')'' @ newline @ msg)))
          else None)"

definition chan_send :: "error option \<Rightarrow> chan \<Rightarrow> chan res" where
  "chan_send v c =
     (if closed c then Panic
      else if length (buf c) < 1 then Ret (c\<lparr>buf := buf c @ [v]\<rparr>)
      else Blocks)"

definition chan_recv :: "chan \<Rightarrow> (error option \<times> chan) res" where
  "chan_recv c =
     (case buf c of
        v # rest \<Rightarrow> Ret (v, c\<lparr>buf := rest\<rparr>)
      | [] \<Rightarrow> if closed c then Ret (None, c) else Blocks)"

text \<open>
  One step of the goroutine: the send of its result, then the deferred close of the
  channel.
\<close>

definition routine_step :: "hecIgst \<Rightarrow> hecIgst" where
  "routine_step hec =
     (case routine hec of
        Running h \<Rightarrow>
          (case chan_send (httpRoutine_result h) (errch hec) of
             Ret c \<Rightarrow> hec\<lparr>errch := c, routine := Sent\<rparr>
           | _ \<Rightarrow> hec)
      | Sent \<Rightarrow> hec\<lparr>errch := (errch hec)\<lparr>closed := True\<rparr>, routine := Exited\<rparr>
      | _ \<Rightarrow> hec)"

text \<open>
  \<open><-hec.errch\<close>: while the receive blocks, only the goroutine can move; the fuel
  bounds its steps, and it has two.
\<close>

fun await :: "nat \<Rightarrow> hecIgst \<Rightarrow> error option res \<times> hecIgst" where
  "await n hec =
     (case chan_recv (errch hec) of
        Ret (v, c) \<Rightarrow> (Ret v, hec\<lparr>errch := c\<rparr>)
      | Panic \<Rightarrow> (Panic, hec)
      | Blocks \<Rightarrow> (case n of 0 \<Rightarrow> (Blocks, hec) | Suc k \<Rightarrow> await k (routine_step hec)))"

definition Close :: "hecIgst \<Rightarrow> error option res \<times> hecIgst" where
  "Close hec =
     (case wtr hec of
        None \<Rightarrow> (Panic, hec)
      | Some p \<Rightarrow> await 2 (hec\<lparr>wtr := Some (pipe_Close p)\<rparr>))"

subsection \<open>Statements about the tag table\<close>

text \<open>Every name maps to at most one id.\<close>

definition names_unique :: "(EntryTag \<rightharpoonup> string) \<Rightarrow> bool" where
  "names_unique m = inj_on m (dom m)"

text \<open>The ids in use are the first ones: \<open>0, 1, \<dots>\<close> up to the size of the table.\<close>

definition keys_dense :: "(EntryTag \<rightharpoonup> string) \<Rightarrow> bool" where
  "keys_dense m = (dom m = {k. unat k < card (dom m)})"

text \<open>
  A sequence of \<open>NegotiateTag\<close> calls, each with the order of its map visit. The result
  lists, for every call, the size of the table before it and what it returned.
\<close>

fun negotiate_all ::
  "(string \<Rightarrow> error option) \<Rightarrow> (EntryTag list \<times> string) list \<Rightarrow> hecIgst
     \<Rightarrow> (nat \<times> EntryTag \<times> error option) list \<times> hecIgst" where
  "negotiate_all C [] hec = ([], hec)"
| "negotiate_all C ((ks, v) # rest) hec =
     (case NegotiateTag C ks hec v of
        ((tag, err), hec') \<Rightarrow>
          (case negotiate_all C rest hec' of
             (rs, hec'') \<Rightarrow> ((card (dom (tags hec)), tag, err) # rs, hec'')))"

text \<open>Each visit order lists the keys the table has at the time of its call.\<close>

fun orders_ok :: "(string \<Rightarrow> error option) \<Rightarrow> (EntryTag list \<times> string) list \<Rightarrow> hecIgst \<Rightarrow> bool" where
  "orders_ok C [] hec = True"
| "orders_ok C ((ks, v) # rest) hec =
     (set ks = dom (tags hec) \<and> orders_ok C rest (snd (NegotiateTag C ks hec v)))"



text \<open>A check of names for the concrete runs below: it refuses the empty name.\<close>

definition check_nonempty :: "string \<Rightarrow> error option" where
  "check_nonempty v = (if v = [] then Some (LibError ''empty tag'') else None)"


text \<open>
  A connection in raw mode as \<open>newHecConn\<close> leaves it, with the default tag at id 0, and
  the same connection in event mode.
\<close>

definition conn0 :: hecIgst where
  "conn0 = \<lparr>HEC = ''http://10.0.0.2:8088/services/collector'', Tag = ''default'', Auth = ''tok'',
            modeHECRaw = True, name = ''gen'', auth = ''Splunk tok'',
            uri = \<lparr>Host = ''10.0.0.2:8088''\<rparr>, to = 0, src = Some ''10.0.0.1'',
            tags = [0 \<mapsto> ''default''], errch = \<lparr>buf = [], closed = False\<rparr>,
            wtr = Some \<lparr>body = [], wclosed = False, room = None\<rparr>,
            routine = Running (Responds \<lparr>StatusCode = 200, Status = ''200 OK'', Body = ([], None)\<rparr>)\<rparr>"

definition conn_event :: hecIgst where
  "conn_event = conn0\<lparr>modeHECRaw := False\<rparr>"


subsection \<open>Statements about writes, construction and \<open>Close\<close>\<close>

text \<open>
  An instance of the two parameters of the encoder for the concrete runs: right on text
  of plain letters and digits, and on whole numbers.
\<close>

definition json0 :: json_lib where
  "json0 = \<lparr>quoteString = (\<lambda>s. dq @ s @ dq), formatFloat = (\<lambda>r. dec_int \<lfloor>r\<rfloor>)\<rparr>"

text \<open>All the entries are written, one after the other, and none fails.\<close>

fun write_all :: "json_lib \<Rightarrow> hecIgst \<Rightarrow> Entry option list \<Rightarrow> hecIgst option" where
  "write_all J hec [] = Some hec"
| "write_all J hec (v # vs) =
     (case WriteEntry J hec v of
        (Ret None, hec') \<Rightarrow> write_all J hec' vs
      | _ \<Rightarrow> None)"

text \<open>The bytes of an entry on the stream, in the mode of the connection.\<close>

definition wire :: "json_lib \<Rightarrow> hecIgst \<Rightarrow> Entry option \<Rightarrow> string" where
  "wire J hec v =
     (case v of
        None \<Rightarrow> []
      | Some e \<Rightarrow>
          if modeHECRaw hec then Data e @ newline
          else (case Marshal_hecent J \<lparr>Event = Data e, Time = timeFloat (TS e), ST = Tag hec\<rparr> of
                  Inl err \<Rightarrow> []
                | Inr b \<Rightarrow> b @ newline))"

definition abc_entries :: "Entry option list" where
  "abc_entries =
     [Some \<lparr>TS = \<lparr>Sec = 0, Nsec = 0\<rparr>, Tag_of = 0, Data = ''abc''\<rparr>,
      Some \<lparr>TS = \<lparr>Sec = 0, Nsec = 0\<rparr>, Tag_of = 0, Data = ''defgh''\<rparr>,
      Some \<lparr>TS = \<lparr>Sec = 0, Nsec = 0\<rparr>, Tag_of = 0, Data = ''zzz''\<rparr>]"

text \<open>
  The goroutine of the connection serves the exchange \<open>h\<close> and nobody has received its
  result yet: it is still to send, or it has sent, or it has also closed the channel.
\<close>

definition awaiting :: "hecIgst \<Rightarrow> http_result \<Rightarrow> bool" where
  "awaiting hec h \<longleftrightarrow>
     wtr hec \<noteq> None \<and>
     (routine hec = Running h \<and> errch hec = \<lparr>buf = [], closed = False\<rparr>
      \<or> routine hec = Sent \<and> errch hec = \<lparr>buf = [httpRoutine_result h], closed = False\<rparr>
      \<or> routine hec = Exited \<and> errch hec = \<lparr>buf = [httpRoutine_result h], closed = True\<rparr>)"

text \<open>The result was received: the channel is empty, and closed once the goroutine is gone.\<close>

definition drained :: "hecIgst \<Rightarrow> bool" where
  "drained hec \<longleftrightarrow>
     wtr hec \<noteq> None \<and>
     (routine hec = Sent \<and> errch hec = \<lparr>buf = [], closed = False\<rparr>
      \<or> routine hec = Exited \<and> errch hec = \<lparr>buf = [], closed = True\<rparr>)"

text \<open>
  What can happen to a connection: a step of its goroutine, a call of \<open>Close\<close>, a call
  of \<open>WriteEntry\<close>.
\<close>

datatype act = Step | CallClose | CallWrite "Entry option"

fun run :: "json_lib \<Rightarrow> act list \<Rightarrow> hecIgst \<Rightarrow> hecIgst" where
  "run J [] hec = hec"
| "run J (Step # as) hec = run J as (routine_step hec)"
| "run J (CallClose # as) hec = run J as (snd (Close hec))"
| "run J (CallWrite v # as) hec = run J as (snd (WriteEntry J hec v))"

definition resp_cut :: Response where
  "resp_cut = \<lparr>StatusCode = 500, Status = ''500 Internal Server Error'',
               Body = (''server error'', Some (LibError ''unexpected EOF''))\<rparr>"

definition resp_500 :: Response where
  "resp_500 = \<lparr>StatusCode = 500, Status = ''500 Internal Server Error'',
               Body = (''server error'', None)\<rparr>"

definition conn_500 :: hecIgst where
  "conn_500 = conn0\<lparr>routine := Running (Responds resp_500)\<rparr>"

definition conn_cut :: hecIgst where
  "conn_cut = conn0\<lparr>routine := Running (Responds resp_cut)\<rparr>"

definition conn_room6 :: hecIgst where
  "conn_room6 = conn0\<lparr>wtr := Some \<lparr>body = [], wclosed = False, room = Some 6\<rparr>\<rparr>"

definition net0 :: net where
  "net0 = \<lparr>url_Parse = (\<lambda>s. Inr \<lparr>Host = ''10.0.0.2:8088''\<rparr>),
           ResolveTCPAddr = (\<lambda>s. Inr s),
           DialTCP = (\<lambda>a. Inr \<lparr>LocalAddr = ''10.0.0.1:40000'', conn_Close = None\<rparr>),
           SplitHostPort = (\<lambda>s. Inr (''10.0.0.1'', ''40000'')),
           ParseIP = (\<lambda>s. Some s)\<rparr>"

definition net_zone :: net where
  "net_zone = \<lparr>url_Parse = (\<lambda>s. Inr \<lparr>Host = ''[fe80::2%eth0]:8088''\<rparr>),
           ResolveTCPAddr = (\<lambda>s. Inr s),
           DialTCP = (\<lambda>a. Inr \<lparr>LocalAddr = ''[fe80::1%eth0]:40000'', conn_Close = None\<rparr>),
           SplitHostPort = (\<lambda>s. Inr (''fe80::1%eth0'', ''40000'')),
           ParseIP = (\<lambda>s. None)\<rparr>"

definition net_refused :: net where
  "net_refused = net0\<lparr>DialTCP := (\<lambda>a. Inl (LibError ''connection refused''))\<rparr>"

definition gc0 :: GeneratorConfig where
  "gc0 = \<lparr>HEC = ''http://10.0.0.2:8088/services/collector'', Tag = ''default'', Auth = ''tok'',
          modeHECRaw = True\<rparr>"

definition ok_200 :: http_result where
  "ok_200 = Responds \<lparr>StatusCode = 200, Status = ''200 OK'', Body = ([], None)\<rparr>"


section \<open>Properties\<close>

subsection \<open>The tag table\<close>

lemma range_tags_Some: "range_tags ks m v = Some k \<Longrightarrow> m k = Some v \<and> k \<in> set ks"
  by (induction ks) (auto split: option.splits if_splits)

lemma range_tags_None: "range_tags ks m v = None \<longleftrightarrow> (\<forall>k\<in>set ks. m k \<noteq> Some v)"
  by (induction ks) (auto split: option.splits)

lemma range_tags_absent: "set ks = dom m \<Longrightarrow> range_tags ks m v = None \<longleftrightarrow> v \<notin> ran m"
  by (auto simp: range_tags_None ran_def dom_def)

lemma unat_of_nat_tag: "n < 65536 \<Longrightarrow> unat (of_nat n :: EntryTag) = n"
  by (rule of_nat_inverse[OF refl]) simp

lemma below_eq_image: "n \<le> 65536 \<Longrightarrow> {k::EntryTag. unat k < n} = of_nat ` {0..<n}"
proof (intro set_eqI iffI)
  fix k :: EntryTag
  assume "k \<in> {k. unat k < n}"
  then have "unat k \<in> {0..<n}" by simp
  moreover have "of_nat (unat k) = k" by simp
  ultimately show "k \<in> of_nat ` {0..<n}" by (metis imageI)
next
  fix k :: EntryTag
  assume n: "n \<le> 65536" and "k \<in> of_nat ` {0..<n}"
  then obtain i where i: "i < n" "k = of_nat i" by auto
  then have "unat k = i" using n by (simp add: unat_of_nat_tag)
  then show "k \<in> {k. unat k < n}" using i by simp
qed

lemma card_below: "n \<le> 65536 \<Longrightarrow> card {k::EntryTag. unat k < n} = n"
proof -
  assume n: "n \<le> 65536"
  have inj: "inj_on (of_nat :: nat \<Rightarrow> EntryTag) {0..<n}"
  proof (rule inj_onI)
    fix x y :: nat
    assume "x \<in> {0..<n}" "y \<in> {0..<n}" and e: "(of_nat x :: EntryTag) = of_nat y"
    then have xy: "x < n" "y < n" by simp_all
    have "x < 65536" using xy(1) n by (rule less_le_trans)
    moreover have "y < 65536" using xy(2) n by (rule less_le_trans)
    ultimately
    have "unat (of_nat x :: EntryTag) = x" "unat (of_nat y :: EntryTag) = y"
      by (simp_all only: unat_of_nat_tag)
    then show "x = y" using e by metis
  qed
  have "card {k::EntryTag. unat k < n} = card ((of_nat :: nat \<Rightarrow> EntryTag) ` {0..<n})"
    by (simp only: below_eq_image[OF n])
  also have "\<dots> = card {0..<n}" using inj by (rule card_image)
  also have "\<dots> = n" by simp
  finally show ?thesis .
qed

lemma card_dom_le: "card (dom (m :: EntryTag \<rightharpoonup> string)) \<le> 65536"
proof -
  have "card (dom m) \<le> card (UNIV :: EntryTag set)" by (rule card_mono) auto
  then show ?thesis by (simp add: card_word)
qed


lemma NegotiateTag_cases:
  assumes "set ks = dom (tags hec)"
  shows "snd (NegotiateTag CheckTag ks hec v) = hec \<or>
     (v \<notin> ran (tags hec) \<and>
      snd (NegotiateTag CheckTag ks hec v) = hec\<lparr>tags := (tags hec)(of_nat (card (dom (tags hec))) \<mapsto> v)\<rparr>)"
  using assms by (auto simp: NegotiateTag_def range_tags_absent[symmetric] Let_def split: option.splits)


lemma unat_tag_less: "unat (k::EntryTag) < 65536"
  using unsigned_less[of k, where 'a = nat] by simp

lemma keys_denseI:
  assumes d: "dom m = {k::EntryTag. unat k < n}" and n: "n \<le> 65536"
  shows "keys_dense m" and "card (dom m) = n"
proof -
  show c: "card (dom m) = n" by (simp only: d card_below[OF n])
  show "keys_dense m" unfolding keys_dense_def by (simp only: c) (rule d)
qed

lemma keys_dense_upd:
  assumes "keys_dense m"
  shows "keys_dense (m(of_nat (card (dom m)) \<mapsto> v))"
proof (cases "card (dom m) < 65536")
  case True
  define n where "n = card (dom m)"
  have dm: "dom m = {k. unat k < n}" using assms unfolding keys_dense_def n_def .
  have u: "unat (of_nat n :: EntryTag) = n" using True unfolding n_def by (rule unat_of_nat_tag)
  have "dom (m(of_nat n \<mapsto> v)) = insert (of_nat n) {k. unat k < n}"
    by (simp only: dom_fun_upd dm) simp
  also have "\<dots> = {k. unat k < Suc n}"
  proof (intro set_eqI iffI)
    fix x :: EntryTag
    assume "x \<in> insert (of_nat n) {k. unat k < n}"
    then show "x \<in> {k. unat k < Suc n}" using u by auto
  next
    fix x :: EntryTag
    assume "x \<in> {k. unat k < Suc n}"
    then have "unat x < n \<or> unat x = n" by auto
    moreover have "unat x = n \<Longrightarrow> x = of_nat n"
      by (metis of_nat_unat ucast_id)
    ultimately show "x \<in> insert (of_nat n) {k. unat k < n}" by auto
  qed
  finally have "dom (m(of_nat n \<mapsto> v)) = {k. unat k < Suc n}" .
  moreover have "Suc n \<le> 65536" using True unfolding n_def by simp
  ultimately show ?thesis unfolding n_def[symmetric] by (rule keys_denseI(1))
next
  case False
  define n where "n = card (dom m)"
  have n: "n = 65536" using False card_dom_le[of m] unfolding n_def by simp
  have dm: "dom m = {k. unat k < n}" using assms unfolding keys_dense_def n_def .
  have "dom m = UNIV" unfolding dm n using unat_tag_less by auto
  then have "dom (m(of_nat n \<mapsto> v)) = {k. unat k < n}"
    unfolding n using unat_tag_less by auto
  moreover have "n \<le> 65536" using n by simp
  ultimately show ?thesis unfolding n_def[symmetric] by (rule keys_denseI(1))
qed











lemma init_table:
  "names_unique [0 \<mapsto> t]" "keys_dense [(0::EntryTag) \<mapsto> t]" "card (dom [(0::EntryTag) \<mapsto> t]) = 1"
proof -
  have d: "dom [(0::EntryTag) \<mapsto> t] = {k. unat k < 1}" by (auto simp: unat_eq_0)
  show "keys_dense [(0::EntryTag) \<mapsto> t]" using d by (rule keys_denseI(1)) simp
  show "card (dom [(0::EntryTag) \<mapsto> t]) = 1" by simp
  show "names_unique [0 \<mapsto> t]" unfolding names_unique_def by simp
qed

lemma conn0_table:
  "names_unique (tags conn0)" "keys_dense (tags conn0)" "card (dom (tags conn0)) = 1"
  "ran (tags conn0) = {''default''}"
  unfolding conn0_def using init_table[of "''default''"] by simp_all






lemma NegotiateTag_keys_dense:
  assumes "keys_dense (tags hec)" "set ks = dom (tags hec)"
  shows "keys_dense (tags (snd (NegotiateTag C ks hec v)))"
  using NegotiateTag_cases[OF assms(2), of C v] assms(1)
  by (auto simp: keys_dense_upd)






text \<open>
  Claim C6. For a name that \<open>CheckTag\<close> accepts, a second \<open>NegotiateTag\<close> with the same
  name returns the id of the first call and leaves the connection as the first call left
  it, whatever order the two calls visit the table in. The table holds every name once,
  which \<open>NegotiateTag\<close> maintains (\<open>NegotiateTag_names_unique\<close>).
\<close>

theorem NegotiateTag_idempotent:
  assumes "C v = None" "names_unique (tags hec)" "set ks = dom (tags hec)"
    and "NegotiateTag C ks hec v = ((t1, e1), hec1)" "set ks' = dom (tags hec1)"
  shows "e1 = None \<and> NegotiateTag C ks' hec1 v = ((t1, None), hec1)"
proof (cases "range_tags ks (tags hec) v")
  case None
  then have v: "v \<notin> ran (tags hec)" using assms(3) by (simp add: range_tags_absent)
  let ?t = "of_nat (card (dom (tags hec))) :: EntryTag"
  have r: "t1 = ?t" "e1 = None" "hec1 = hec\<lparr>tags := (tags hec)(?t \<mapsto> v)\<rparr>"
    using assms(1,4) None by (auto simp: NegotiateTag_def Let_def)
  have "range_tags ks' (tags hec1) v \<noteq> None"
    using assms(5) unfolding r(3) by (simp add: range_tags_None)
  then obtain k where k: "range_tags ks' (tags hec1) v = Some k" by auto
  then have "tags hec1 k = Some v" by (simp add: range_tags_Some)
  then have "k = ?t" using v unfolding r(3) by (auto simp: ran_def split: if_splits)
  then show ?thesis using k r assms(1) by (simp add: NegotiateTag_def)
next
  case (Some k)
  then have r: "t1 = k" "e1 = None" "hec1 = hec"
    using assms(1,4) by (auto simp: NegotiateTag_def)
  have kv: "tags hec k = Some v" using Some by (simp add: range_tags_Some)
  have "range_tags ks' (tags hec) v \<noteq> None"
    using assms(5) kv unfolding r(3) by (auto simp: range_tags_None)
  then obtain k' where k': "range_tags ks' (tags hec) v = Some k'" by auto
  then have "tags hec k' = Some v" by (simp add: range_tags_Some)
  then have "k' = k" using kv assms(2) unfolding names_unique_def inj_on_def by (metis domI)
  then show ?thesis using k' r assms(1) by (simp add: NegotiateTag_def)
qed

text \<open>
  The theorem of C6 on a new connection: \<open>alpha\<close> gets the id 1, and gets it again from
  a second call that visits the table in another order.
\<close>

theorem NegotiateTag_idempotent_witness:
  "check_nonempty ''alpha'' = None \<and> names_unique (tags conn0) \<and> set [0] = dom (tags conn0)
   \<and> NegotiateTag check_nonempty [0] conn0 ''alpha''
       = ((1, None), conn0\<lparr>tags := [0 \<mapsto> ''default'', 1 \<mapsto> ''alpha'']\<rparr>)
   \<and> set [1, 0] = dom (tags (conn0\<lparr>tags := [0 \<mapsto> ''default'', 1 \<mapsto> ''alpha'']\<rparr>))
   \<and> NegotiateTag check_nonempty [1, 0] (conn0\<lparr>tags := [0 \<mapsto> ''default'', 1 \<mapsto> ''alpha'']\<rparr>) ''alpha''
       = ((1, None), conn0\<lparr>tags := [0 \<mapsto> ''default'', 1 \<mapsto> ''alpha'']\<rparr>)"
proof -
  let ?h1 = "conn0\<lparr>tags := [0 \<mapsto> ''default'', 1 \<mapsto> ''alpha'']\<rparr>"
  have a: "check_nonempty ''alpha'' = None" by (simp add: check_nonempty_def)
  have d: "set [0] = dom (tags conn0)" by (simp add: conn0_def)
  have s: "NegotiateTag check_nonempty [0] conn0 ''alpha'' = ((1, None), ?h1)"
    by (simp add: conn0_def NegotiateTag_def check_nonempty_def Let_def)
  have d1: "set [1, 0] = dom (tags ?h1)" by (auto simp: conn0_def)
  show ?thesis
    using NegotiateTag_idempotent[OF a conn0_table(1) d s d1] a conn0_table(1) d s d1 by simp
qed

text \<open>
  The table holds only names it was built with and names handed to \<open>NegotiateTag\<close>.
\<close>

lemma NegotiateTag_ran:
  assumes "set ks = dom (tags hec)"
  shows "ran (tags (snd (NegotiateTag C ks hec v))) \<subseteq> insert v (ran (tags hec))"
proof -
  have "ran ((tags hec)(k \<mapsto> v)) \<subseteq> insert v (ran (tags hec))" for k
    by (auto simp: ran_def)
  then have u: "ran ((tags hec)(of_nat (card (dom (tags hec))) \<mapsto> v)) \<subseteq> insert v (ran (tags hec))" .
  show ?thesis using NegotiateTag_cases[OF assms, of C v]
  proof
    assume "snd (NegotiateTag C ks hec v) = hec"
    then show ?thesis by auto
  next
    assume "v \<notin> ran (tags hec) \<and>
      snd (NegotiateTag C ks hec v) = hec\<lparr>tags := (tags hec)(of_nat (card (dom (tags hec))) \<mapsto> v)\<rparr>"
    then have "tags (snd (NegotiateTag C ks hec v)) = (tags hec)(of_nat (card (dom (tags hec))) \<mapsto> v)"
      by simp
    then show ?thesis using u by simp
  qed
qed

lemma negotiate_all_ran:
  assumes "orders_ok C kvs hec"
  shows "ran (tags (snd (negotiate_all C kvs hec))) \<subseteq> ran (tags hec) \<union> set (map snd kvs)"
  using assms
proof (induction kvs arbitrary: hec)
  case Nil
  then show ?case by simp
next
  case (Cons kv kvs)
  obtain ks v where kv: "kv = (ks, v)" by (cases kv)
  let ?h = "snd (NegotiateTag C ks hec v)"
  have o: "set ks = dom (tags hec)" "orders_ok C kvs ?h" using Cons.prems kv by simp_all
  have "snd (negotiate_all C (kv # kvs) hec) = snd (negotiate_all C kvs ?h)"
    unfolding kv by (simp split: prod.splits)
  moreover have "ran (tags (snd (negotiate_all C kvs ?h))) \<subseteq> ran (tags ?h) \<union> set (map snd kvs)"
    using o(2) by (rule Cons.IH)
  moreover have "ran (tags ?h) \<subseteq> insert v (ran (tags hec))" using o(1) by (rule NegotiateTag_ran)
  ultimately show ?case unfolding kv by auto
qed



subsection \<open>Timestamps\<close>

lemma unixToInternal_value: "unixToInternal = 62135596800"
  by (simp add: unixToInternal_def secondsPerDay_def secondsPerHour_def)



subsection \<open>Writes and batches\<close>

lemma pipe_Write_ok: "pipe_Write bs p = (None, p') \<Longrightarrow> body p' = body p @ bs"
  by (auto simp: pipe_Write_def split: if_splits option.splits)

lemma sendRaw_ok:
  assumes "sendRaw hec (Some e) = (Ret None, hec')" "wtr hec = Some p"
  shows "hec' = hec\<lparr>wtr := wtr hec'\<rparr> \<and> map_option body (wtr hec') = Some (body p @ Data e @ newline)"
proof -
  obtain e1 p1 where w1: "pipe_Write (Data e) p = (e1, p1)" by (cases "pipe_Write (Data e) p")
  obtain e2 p2 where w2: "pipe_Write newline p1 = (e2, p2)" by (cases "pipe_Write newline p1")
  have e1: "e1 = None" using assms w1 by (cases e1) (simp_all add: sendRaw_def)
  have e2: "e2 = None" using assms w1 w2 e1 by (cases e2) (simp_all add: sendRaw_def)
  have h: "hec' = hec\<lparr>wtr := Some p2\<rparr>"
    using assms w1 w2 e1 e2 by (simp add: sendRaw_def)
  have "body p2 = body p @ Data e @ newline"
    using pipe_Write_ok[of "Data e" p p1] pipe_Write_ok[of newline p1 p2] w1 w2 e1 e2 by simp
  then show ?thesis unfolding h by simp
qed

lemma sendEvent_ok:
  assumes "sendEvent J hec (Some e) = (Ret None, hec')" "wtr hec = Some p"
  shows "hec' = hec\<lparr>wtr := wtr hec'\<rparr>
     \<and> map_option body (wtr hec') = Some (body p @ wire J (hec\<lparr>modeHECRaw := False\<rparr>) (Some e))"
proof (cases "Marshal_hecent J \<lparr>Event = Data e, Time = timeFloat (TS e), ST = Tag hec\<rparr>")
  case (Inl err)
  then show ?thesis using assms by (simp add: sendEvent_def Encode_def)
next
  case (Inr b)
  obtain e1 p1 where w1: "pipe_Write (b @ newline) p = (e1, p1)" by (cases "pipe_Write (b @ newline) p")
  have e1: "e1 = None" and h: "hec' = hec\<lparr>wtr := Some p1\<rparr>"
    using assms Inr w1 by (auto simp: sendEvent_def Encode_def)
  have "body p1 = body p @ b @ newline" using pipe_Write_ok[of "b @ newline" p p1] w1 e1 by simp
  then show ?thesis unfolding h using Inr by (simp add: wire_def)
qed

lemma same_wtr: "hec = hec\<lparr>wtr := wtr hec\<rparr>"
  by simp

lemma wire_wtr: "wire J (hec\<lparr>wtr := w\<rparr>) v = wire J hec v"
  by (cases v) (simp_all add: wire_def)

lemma wire_event: "\<not> modeHECRaw hec \<Longrightarrow> wire J (hec\<lparr>modeHECRaw := False\<rparr>) v = wire J hec v"
  by (cases v) (simp_all add: wire_def)

lemma WriteEntry_ok:
  assumes "WriteEntry J hec v = (Ret None, hec')" "wtr hec = Some p"
  shows "hec' = hec\<lparr>wtr := wtr hec'\<rparr> \<and> map_option body (wtr hec') = Some (body p @ wire J hec v)"
proof (cases v)
  case None
  then have "\<not> modeHECRaw hec" "hec' = hec"
    using assms(1) by (auto simp: WriteEntry_def sendRaw_def sendEvent_def split: if_splits)
  then show ?thesis using None assms(2) by (simp add: wire_def)
next
  case (Some e)
  show ?thesis
  proof (cases "modeHECRaw hec")
    case True
    then show ?thesis using sendRaw_ok[of hec e hec' p] assms Some by (simp add: WriteEntry_def wire_def)
  next
    case False
    then show ?thesis using sendEvent_ok[of J hec e hec' p] assms Some
      by (simp add: WriteEntry_def wire_event)
  qed
qed

lemma write_all_body:
  assumes "write_all J hec vs = Some hec'" "wtr hec = Some p"
  shows "hec' = hec\<lparr>wtr := wtr hec'\<rparr>
     \<and> map_option body (wtr hec') = Some (body p @ concat (map (wire J hec) vs))"
  using assms
proof (induction vs arbitrary: hec p)
  case Nil
  then show ?case by auto
next
  case (Cons v vs)
  obtain r h1 where w: "WriteEntry J hec v = (r, h1)" by (cases "WriteEntry J hec v")
  have r: "r = Ret None" using Cons.prems(1) w by (auto split: res.splits option.splits)
  then have rest: "write_all J h1 vs = Some hec'" using Cons.prems(1) w by simp
  have h1: "h1 = hec\<lparr>wtr := wtr h1\<rparr>" "map_option body (wtr h1) = Some (body p @ wire J hec v)"
    using WriteEntry_ok[of J hec v h1 p] w r Cons.prems(2) by auto
  then obtain p1 where p1: "wtr h1 = Some p1" "body p1 = body p @ wire J hec v" by auto
  have IH: "hec' = h1\<lparr>wtr := wtr hec'\<rparr>"
     "map_option body (wtr hec') = Some (body p1 @ concat (map (wire J h1) vs))"
    using Cons.IH[OF rest p1(1)] by auto
  have ww: "wire J h1 = wire J hec"
    by (rule ext) (subst h1(1), rule wire_wtr)
  have "hec' = hec\<lparr>wtr := wtr hec'\<rparr>" by (subst IH(1), subst h1(1)) simp
  then show ?case using IH(2) p1(2) ww by simp
qed

lemma routine_step_wtr: "wtr (routine_step hec) = wtr hec"
  by (simp add: routine_step_def chan_send_def split: routine_state.splits res.splits)

lemma await_wtr: "wtr (snd (await n hec)) = wtr hec"
proof (induction n arbitrary: hec)
  case 0
  show ?case by (simp split: res.splits prod.splits)
next
  case (Suc n)
  show ?case using Suc[of "routine_step hec"]
    by (simp add: routine_step_wtr split: res.splits prod.splits)
qed

lemma Close_wtr: "wtr (snd (Close hec)) = map_option pipe_Close (wtr hec)"
  by (cases "wtr hec") (simp_all add: Close_def await_wtr del: await.simps)

text \<open>
  Claim C8. In raw mode a write of an entry that returns success has put on the stream
  the bytes it held before, then the payload of the entry, then one newline; \<open>Close\<close>
  leaves these bytes as they are.
\<close>

theorem raw_write_appends:
  assumes "modeHECRaw hec" "wtr hec = Some p" "WriteEntry J hec (Some e) = (Ret None, hec')"
  shows "map_option body (wtr hec') = Some (body p @ Data e @ [CHR 0x0A])
       \<and> map_option body (wtr (snd (Close hec'))) = Some (body p @ Data e @ [CHR 0x0A])"
proof -
  have "map_option body (wtr hec') = Some (body p @ wire J hec (Some e))"
    using WriteEntry_ok[OF assms(3,2)] by simp
  then show ?thesis using assms(1)
    by (auto simp: Close_wtr wire_def newline_def pipe_Close_def)
qed

text \<open>
  The theorem of C8 on a new connection: the payload \<open>{"a":1}\<close> and a newline are the
  whole body.
\<close>

theorem raw_write_appends_witness:
  "modeHECRaw conn0 \<and> wtr conn0 = Some \<lparr>body = [], wclosed = False, room = None\<rparr>
   \<and> Write json0 conn0 \<lparr>Sec = 0, Nsec = 0\<rparr> 0 (''{'' @ dq @ ''a'' @ dq @ '':1}'')
       = (Ret None, conn0\<lparr>wtr := Some \<lparr>body = ''{'' @ dq @ ''a'' @ dq @ '':1}'' @ [CHR 0x0A],
                                        wclosed = False, room = None\<rparr>\<rparr>)
   \<and> map_option body (wtr (snd (Close (conn0\<lparr>wtr := Some \<lparr>body = ''{'' @ dq @ ''a'' @ dq @ '':1}'' @ [CHR 0x0A],
                                        wclosed = False, room = None\<rparr>\<rparr>))))
       = Some (''{'' @ dq @ ''a'' @ dq @ '':1}'' @ [CHR 0x0A])"
proof -
  let ?e = "\<lparr>TS = \<lparr>Sec = 0, Nsec = 0\<rparr>, Tag_of = 0, Data = ''{'' @ dq @ ''a'' @ dq @ '':1}''\<rparr>"
  let ?h = "conn0\<lparr>wtr := Some \<lparr>body = ''{'' @ dq @ ''a'' @ dq @ '':1}'' @ [CHR 0x0A],
                                        wclosed = False, room = None\<rparr>\<rparr>"
  have m: "modeHECRaw conn0" by (simp add: conn0_def)
  have w: "wtr conn0 = Some \<lparr>body = [], wclosed = False, room = None\<rparr>" by (simp add: conn0_def)
  have s: "WriteEntry json0 conn0 (Some ?e) = (Ret None, ?h)"
    by (simp add: conn0_def WriteEntry_def sendRaw_def pipe_Write_def newline_def)
  show ?thesis using raw_write_appends[OF m w s] m w s by (simp add: Write_def)
qed

lemma WriteBatch_ok_iff: "WriteBatch J hec ents = (Ret None, hec') \<longleftrightarrow> write_all J hec ents = Some hec'"
proof (induction ents arbitrary: hec)
  case Nil
  show ?case by auto
next
  case (Cons v ents)
  show ?case using Cons[of "snd (WriteEntry J hec v)"]
    by (auto split: prod.splits res.splits option.splits)
qed

lemma WriteBatch_fail_iff:
  assumes "r \<noteq> Ret None"
  shows "WriteBatch J hec ents = (r, hec') \<longleftrightarrow>
     (\<exists>pre v post hec1. ents = pre @ v # post \<and> write_all J hec pre = Some hec1
        \<and> WriteEntry J hec1 v = (r, hec'))"
  using assms
proof (induction ents arbitrary: hec)
  case Nil
  then show ?case by auto
next
  case (Cons x ents)
  obtain r1 h1 where w: "WriteEntry J hec x = (r1, h1)" by (cases "WriteEntry J hec x")
  show ?case
  proof (cases "r1 = Ret None")
    case True
    have "WriteBatch J hec (x # ents) = (r, hec') \<longleftrightarrow> WriteBatch J h1 ents = (r, hec')"
      using w True by simp
    also have "\<dots> \<longleftrightarrow> (\<exists>pre v post hec1. ents = pre @ v # post \<and> write_all J h1 pre = Some hec1
        \<and> WriteEntry J hec1 v = (r, hec'))" using Cons.IH[OF Cons.prems] .
    also have "\<dots> \<longleftrightarrow> (\<exists>pre v post hec1. x # ents = pre @ v # post \<and> write_all J hec pre = Some hec1
        \<and> WriteEntry J hec1 v = (r, hec'))"
    proof
      assume "\<exists>pre v post hec1. ents = pre @ v # post \<and> write_all J h1 pre = Some hec1
        \<and> WriteEntry J hec1 v = (r, hec')"
      then obtain pre v post hec1 where "ents = pre @ v # post" "write_all J h1 pre = Some hec1"
        "WriteEntry J hec1 v = (r, hec')" by blast
      then have "x # ents = (x # pre) @ v # post \<and> write_all J hec (x # pre) = Some hec1
        \<and> WriteEntry J hec1 v = (r, hec')" using w True by simp
      then show "\<exists>pre v post hec1. x # ents = pre @ v # post \<and> write_all J hec pre = Some hec1
        \<and> WriteEntry J hec1 v = (r, hec')" by blast
    next
      assume "\<exists>pre v post hec1. x # ents = pre @ v # post \<and> write_all J hec pre = Some hec1
        \<and> WriteEntry J hec1 v = (r, hec')"
      then obtain pre v post hec1 where a: "x # ents = pre @ v # post" "write_all J hec pre = Some hec1"
        "WriteEntry J hec1 v = (r, hec')" by blast
      show "\<exists>pre v post hec1. ents = pre @ v # post \<and> write_all J h1 pre = Some hec1
        \<and> WriteEntry J hec1 v = (r, hec')"
      proof (cases pre)
        case Nil
        then have "hec1 = hec" "v = x" using a by simp_all
        then show ?thesis using a(3) w True Cons.prems by simp
      next
        case (Cons y pre')
        then have "y = x" "ents = pre' @ v # post" using a(1) by simp_all
        moreover have "write_all J h1 pre' = Some hec1" using a(2) Cons \<open>y = x\<close> w True by simp
        ultimately show ?thesis using a(3) by blast
      qed
    qed
    finally show ?thesis .
  next
    case False
    have l: "WriteBatch J hec (x # ents) = (r1, h1)"
      using w False by (auto split: res.splits option.splits)
    show ?thesis
    proof
      assume "WriteBatch J hec (x # ents) = (r, hec')"
      then have "r = r1" "hec' = h1" using l by simp_all
      then have "x # ents = [] @ x # ents \<and> write_all J hec [] = Some hec
        \<and> WriteEntry J hec x = (r, hec')" using w by simp
      then show "\<exists>pre v post hec1. x # ents = pre @ v # post \<and> write_all J hec pre = Some hec1
        \<and> WriteEntry J hec1 v = (r, hec')" by blast
    next
      assume "\<exists>pre v post hec1. x # ents = pre @ v # post \<and> write_all J hec pre = Some hec1
        \<and> WriteEntry J hec1 v = (r, hec')"
      then obtain pre v post hec1 where a: "x # ents = pre @ v # post" "write_all J hec pre = Some hec1"
        "WriteEntry J hec1 v = (r, hec')" by blast
      have "pre = []"
      proof (cases pre)
        case (Cons y pre')
        then have "y = x" using a(1) by simp
        then have "write_all J hec pre = None" using Cons w False by (auto split: res.splits option.splits)
        then show ?thesis using a(2) by simp
      qed simp
      then have "v = x" "hec1 = hec" using a by simp_all
      then show "WriteBatch J hec (x # ents) = (r, hec')" using a(3) w l by simp
    qed
  qed
qed

text \<open>
  Claim C9. \<open>WriteBatch\<close> writes the entries in the order of the list. It returns
  success exactly when every entry was written. It returns anything else \<open>r\<close> (an
  error, or the panic of a nil entry in raw mode) exactly when some entry of the list
  yields \<open>r\<close> after all the entries before it were written with success; the state it
  leaves is the state after that entry, so no later entry is written. The entries
  written with success are on the stream in their order.
\<close>

theorem WriteBatch_first_error:
  "(WriteBatch J hec ents = (Ret None, hec') \<longleftrightarrow> write_all J hec ents = Some hec')
   \<and> (r \<noteq> Ret None \<longrightarrow>
        (WriteBatch J hec ents = (r, hec') \<longleftrightarrow>
           (\<exists>pre v post hec1. ents = pre @ v # post \<and> write_all J hec pre = Some hec1
              \<and> WriteEntry J hec1 v = (r, hec'))))
   \<and> (wtr hec = Some p \<and> write_all J hec pre = Some hec1 \<longrightarrow>
        map_option body (wtr hec1) = Some (body p @ concat (map (wire J hec) pre)))"
proof (intro conjI impI)
  show "WriteBatch J hec ents = (Ret None, hec') \<longleftrightarrow> write_all J hec ents = Some hec'"
    by (rule WriteBatch_ok_iff)
next
  assume "r \<noteq> Ret None"
  then show "WriteBatch J hec ents = (r, hec') \<longleftrightarrow>
           (\<exists>pre v post hec1. ents = pre @ v # post \<and> write_all J hec pre = Some hec1
              \<and> WriteEntry J hec1 v = (r, hec'))" by (rule WriteBatch_fail_iff)
next
  assume "wtr hec = Some p \<and> write_all J hec pre = Some hec1"
  then show "map_option body (wtr hec1) = Some (body p @ concat (map (wire J hec) pre))"
    using write_all_body[of J hec pre hec1 p] by auto
qed

text \<open>
  The theorem of C9 on a pipe whose reader takes six more bytes: the first entry is
  written, the second fails after two of its bytes, and the third is not written. On a
  pipe whose reader keeps reading, the three entries are written.
\<close>

theorem WriteBatch_first_error_witness:
  "Ret (Some ErrClosedPipe) \<noteq> Ret None
   \<and> WriteBatch json0 conn_room6 abc_entries =
       (Ret (Some ErrClosedPipe),
        conn_room6\<lparr>wtr := Some \<lparr>body = ''abc'' @ [CHR 0x0A] @ ''de'', wclosed = False, room = Some 0\<rparr>\<rparr>)
   \<and> wtr conn_room6 = Some \<lparr>body = [], wclosed = False, room = Some 6\<rparr>
   \<and> write_all json0 conn_room6 (take 1 abc_entries) =
       Some (conn_room6\<lparr>wtr := Some \<lparr>body = ''abc'' @ [CHR 0x0A], wclosed = False, room = Some 2\<rparr>\<rparr>)
   \<and> map_option body (wtr (conn_room6\<lparr>wtr := Some \<lparr>body = ''abc'' @ [CHR 0x0A], wclosed = False, room = Some 2\<rparr>\<rparr>))
       = Some (''abc'' @ [CHR 0x0A])
   \<and> WriteBatch json0 conn0 abc_entries =
       (Ret None, conn0\<lparr>wtr := Some \<lparr>body = ''abc'' @ [CHR 0x0A] @ ''defgh'' @ [CHR 0x0A] @ ''zzz'' @ [CHR 0x0A],
                                      wclosed = False, room = None\<rparr>\<rparr>)"
proof -
  let ?h1 = "conn_room6\<lparr>wtr := Some \<lparr>body = ''abc'' @ [CHR 0x0A], wclosed = False, room = Some 2\<rparr>\<rparr>"
  let ?h2 = "conn_room6\<lparr>wtr := Some \<lparr>body = ''abc'' @ [CHR 0x0A] @ ''de'', wclosed = False, room = Some 0\<rparr>\<rparr>"
  let ?h3 = "conn0\<lparr>wtr := Some \<lparr>body = ''abc'' @ [CHR 0x0A] @ ''defgh'' @ [CHR 0x0A] @ ''zzz'' @ [CHR 0x0A],
                                      wclosed = False, room = None\<rparr>\<rparr>"
  have ne: "Ret (Some ErrClosedPipe) \<noteq> Ret None" by simp
  have w: "wtr conn_room6 = Some \<lparr>body = [], wclosed = False, room = Some 6\<rparr>"
    by (simp add: conn_room6_def)
  have pre: "write_all json0 conn_room6 (take 1 abc_entries) = Some ?h1"
    by (simp add: abc_entries_def conn_room6_def conn0_def WriteEntry_def sendRaw_def pipe_Write_def newline_def)
  have fail: "WriteEntry json0 ?h1 (abc_entries ! 1) = (Ret (Some ErrClosedPipe), ?h2)"
    by (simp add: abc_entries_def conn_room6_def conn0_def WriteEntry_def sendRaw_def pipe_Write_def newline_def)
  have split: "abc_entries = take 1 abc_entries @ (abc_entries ! 1) # drop 2 abc_entries"
    by (simp add: abc_entries_def)
  have all: "write_all json0 conn0 abc_entries = Some ?h3"
    by (simp add: abc_entries_def conn0_def WriteEntry_def sendRaw_def pipe_Write_def newline_def)
  note T = WriteBatch_first_error[of json0 conn_room6 abc_entries ?h2 "Ret (Some ErrClosedPipe)"
      "\<lparr>body = [], wclosed = False, room = Some 6\<rparr>" "take 1 abc_entries" ?h1]
  note T3 = WriteBatch_first_error[of json0 conn0 abc_entries ?h3 "Ret (Some ErrClosedPipe)"
      "\<lparr>body = [], wclosed = False, room = None\<rparr>" "[]" conn0]
  have 1: "WriteBatch json0 conn_room6 abc_entries = (Ret (Some ErrClosedPipe), ?h2)"
    using T ne split pre fail by blast
  have 2: "map_option body (wtr ?h1) = Some (''abc'' @ [CHR 0x0A])" by simp
  have 3: "WriteBatch json0 conn0 abc_entries = (Ret None, ?h3)"
    using T3 all by blast
  show ?thesis using ne 1 w pre 2 3 by simp
qed


subsection \<open>The goroutine, the channel and \<open>Close\<close>\<close>

lemma pipe_Write_frame: "wclosed (snd (pipe_Write bs p)) = wclosed p"
  by (auto simp: pipe_Write_def split: option.splits)

lemma sendRaw_frame:
  "routine (snd (sendRaw hec v)) = routine hec \<and> errch (snd (sendRaw hec v)) = errch hec
   \<and> (wtr hec \<noteq> None \<longrightarrow> wtr (snd (sendRaw hec v)) \<noteq> None)"
  by (auto simp: sendRaw_def split: option.splits prod.splits)

lemma sendEvent_frame:
  "routine (snd (sendEvent J hec v)) = routine hec \<and> errch (snd (sendEvent J hec v)) = errch hec
   \<and> (wtr hec \<noteq> None \<longrightarrow> wtr (snd (sendEvent J hec v)) \<noteq> None)"
  by (auto simp: sendEvent_def Encode_def split: option.splits prod.splits sum.splits)

lemma WriteEntry_frame:
  "routine (snd (WriteEntry J hec v)) = routine hec \<and> errch (snd (WriteEntry J hec v)) = errch hec
   \<and> (wtr hec \<noteq> None \<longrightarrow> wtr (snd (WriteEntry J hec v)) \<noteq> None)"
  using sendRaw_frame[of hec v] sendEvent_frame[of J hec v] by (simp add: WriteEntry_def)

lemma awaiting_step: "awaiting hec h \<Longrightarrow> awaiting (routine_step hec) h"
  by (auto simp: awaiting_def routine_step_def chan_send_def)

lemma awaiting_write: "awaiting hec h \<Longrightarrow> awaiting (snd (WriteEntry J hec v)) h"
  using WriteEntry_frame[of J hec v] by (auto simp: awaiting_def)

lemma drained_step: "drained hec \<Longrightarrow> drained (routine_step hec)"
  by (auto simp: drained_def routine_step_def)

lemma drained_write: "drained hec \<Longrightarrow> drained (snd (WriteEntry J hec v))"
  using WriteEntry_frame[of J hec v] by (auto simp: drained_def)

lemma Close_awaiting:
  assumes "awaiting hec h"
  shows "fst (Close hec) = Ret (httpRoutine_result h)" "drained (snd (Close hec))"
proof -
  obtain p where p: "wtr hec = Some p" using assms by (auto simp: awaiting_def)
  consider "routine hec = Running h" "errch hec = \<lparr>buf = [], closed = False\<rparr>"
    | "routine hec = Sent" "errch hec = \<lparr>buf = [httpRoutine_result h], closed = False\<rparr>"
    | "routine hec = Exited" "errch hec = \<lparr>buf = [httpRoutine_result h], closed = True\<rparr>"
    using assms by (auto simp: awaiting_def)
  then have "fst (Close hec) = Ret (httpRoutine_result h) \<and> drained (snd (Close hec))"
  proof cases
    case 1
    then show ?thesis using p
      by (simp add: Close_def chan_recv_def routine_step_def chan_send_def drained_def numeral_2_eq_2)
  next
    case 2
    then show ?thesis using p
      by (simp add: Close_def chan_recv_def drained_def numeral_2_eq_2)
  next
    case 3
    then show ?thesis using p
      by (simp add: Close_def chan_recv_def drained_def numeral_2_eq_2)
  qed
  then show "fst (Close hec) = Ret (httpRoutine_result h)" "drained (snd (Close hec))" by simp_all
qed

lemma Close_drained:
  assumes "drained hec"
  shows "fst (Close hec) = Ret None" "drained (snd (Close hec))"
proof -
  obtain p where p: "wtr hec = Some p" using assms by (auto simp: drained_def)
  consider "routine hec = Sent" "errch hec = \<lparr>buf = [], closed = False\<rparr>"
    | "routine hec = Exited" "errch hec = \<lparr>buf = [], closed = True\<rparr>"
    using assms by (auto simp: drained_def)
  then have "fst (Close hec) = Ret None \<and> drained (snd (Close hec))"
  proof cases
    case 1
    then show ?thesis using p
      by (simp add: Close_def chan_recv_def routine_step_def drained_def numeral_2_eq_2)
  next
    case 2
    then show ?thesis using p
      by (simp add: Close_def chan_recv_def drained_def numeral_2_eq_2)
  qed
  then show "fst (Close hec) = Ret None" "drained (snd (Close hec))" by simp_all
qed

lemma drained_run: "drained hec \<Longrightarrow> drained (run J acts hec)"
proof (induction acts arbitrary: hec)
  case Nil
  then show ?case by simp
next
  case (Cons a acts)
  then show ?case
    by (cases a) (simp_all add: drained_step drained_write Close_drained(2))
qed

lemma test_frame: "snd (test N hec) = hec\<lparr>src := src (snd (test N hec))\<rparr>"
  by (simp add: test_def Let_def split: sum.splits prod.splits)

lemma newHecConn_tags:
  assumes "newHecConn N h rm nm gc t = (Some hec, e)"
  shows "tags hec = [0 \<mapsto> Tag gc]"
proof -
  obtain u where u: "url_Parse N (HEC gc) = Inr u"
    using assms by (cases "url_Parse N (HEC gc)") (simp_all add: newHecConn_def)
  let ?hec0 = "hecIgst_literal nm gc t u"
  obtain ip err hec1 where t: "test N ?hec0 = ((ip, err), hec1)" by (metis surj_pair)
  have "hec1 = ?hec0\<lparr>src := src hec1\<rparr>" using test_frame[of N ?hec0] t by simp
  then have "tags hec1 = tags (?hec0\<lparr>src := src hec1\<rparr>)" by simp
  then have f: "tags hec1 = [0 \<mapsto> Tag gc]" by (simp add: hecIgst_literal_def)
  have "tags hec = tags hec1"
    using assms u t unfolding newHecConn_def
    by (cases err) (auto simp: Let_def)
  then show ?thesis using f by simp
qed

lemma newHecConn_table_invariants:
  assumes "newHecConn N h rm nm gc t = (Some hec, e)"
  shows "names_unique (tags hec)" "keys_dense (tags hec)"
  using init_table[of "Tag gc"] unfolding newHecConn_tags[OF assms] by simp_all

lemma WriteEntry_tags: "tags (snd (WriteEntry J hec v)) = tags hec"
  by (auto simp: WriteEntry_def sendRaw_def sendEvent_def Encode_def
      split: option.splits prod.splits sum.splits)

lemma routine_step_tags: "tags (routine_step hec) = tags hec"
  by (simp add: routine_step_def chan_send_def split: routine_state.splits res.splits)

lemma await_tags: "tags (snd (await n hec)) = tags hec"
proof (induction n arbitrary: hec)
  case 0
  show ?case by (simp split: res.splits prod.splits)
next
  case (Suc n)
  show ?case using Suc[of "routine_step hec"]
    by (simp add: routine_step_tags split: res.splits prod.splits)
qed

lemma Close_tags: "tags (snd (Close hec)) = tags hec"
  by (cases "wtr hec") (simp_all add: Close_def await_tags del: await.simps)

lemma newHecConn_awaiting:
  assumes "newHecConn N h rm nm gc t = (Some hec, None)"
  shows "awaiting hec h"
proof -
  obtain u where u: "url_Parse N (HEC gc) = Inr u"
    using assms by (cases "url_Parse N (HEC gc)") (simp_all add: newHecConn_def)
  let ?hec0 = "hecIgst_literal nm gc t u"
  obtain ip err hec1 where t: "test N ?hec0 = ((ip, err), hec1)" by (metis surj_pair)
  have "hec1 = ?hec0\<lparr>src := src hec1\<rparr>" using test_frame[of N ?hec0] t by simp
  then have "errch hec1 = errch (?hec0\<lparr>src := src hec1\<rparr>)" by simp
  then have f: "errch hec1 = \<lparr>buf = [], closed = False\<rparr>" by (simp add: hecIgst_literal_def)
  have "hec = hec1\<lparr>src := ip, routine := Running h,
                     wtr := Some \<lparr>body = [], wclosed = False, room = rm\<rparr>\<rparr>"
    using assms u t unfolding newHecConn_def
    by (cases err) (simp_all add: Let_def)
  then show ?thesis using f by (simp add: awaiting_def)
qed

text \<open>
  Claim C4, amended. When the request of the connection has got a response, the first
  \<open>Close\<close> returns nil exactly when the status is 200. For any other status it returns
  an error whose text is \<open>invalid status\<close>, the status code, the status line in
  parentheses and a newline, followed by the first 512 bytes of the body at most when
  they could be read (the body ended, or had 512 bytes), and by nothing when reading the
  body failed.
\<close>

theorem Close_reports_status:
  assumes "awaiting hec (Responds resp)"
  shows "(fst (Close hec) = Ret None \<longleftrightarrow> StatusCode resp = 200)
       \<and> (StatusCode resp \<noteq> 200 \<longrightarrow>
            fst (Close hec) =
              Ret (Some (Errorf (''invalid status '' @ dec_int (StatusCode resp) @ '' (''
                  @ Status resp @ '')'' @ [CHR 0x0A]
                  @ (if snd (Body resp) = None \<or> 512 \<le> length (fst (Body resp))
                     then take 512 (fst (Body resp)) else [])))))"
proof -
  have c: "fst (Close hec) = Ret (httpRoutine_result (Responds resp))"
    using assms by (rule Close_awaiting(1))
  show ?thesis
    unfolding c
    by (cases "Body resp")
       (auto simp: httpRoutine_result_def ReadAll_limited_def newline_def Let_def split: option.splits)
qed

lemma dec_int_500: "dec_int 500 = ''500''"
  by code_simp

lemma conn0_awaiting: "awaiting (conn0\<lparr>routine := Running h\<rparr>) h"
  by (simp add: awaiting_def conn0_def)

text \<open>
  The theorem of C4 at status 500 with the body \<open>server error\<close>: the text holds \<open>500\<close>
  and \<open>server error\<close>.
\<close>

theorem Close_reports_status_witness:
  "awaiting conn_500 (Responds resp_500) \<and> StatusCode resp_500 \<noteq> 200
   \<and> fst (Close conn_500) =
       Ret (Some (Errorf (''invalid status 500 (500 Internal Server Error)'' @ [CHR 0x0A] @ ''server error'')))
   \<and> sublist ''500'' (''invalid status 500 (500 Internal Server Error)'' @ [CHR 0x0A] @ ''server error'')
   \<and> sublist ''server error'' (''invalid status 500 (500 Internal Server Error)'' @ [CHR 0x0A] @ ''server error'')"
proof -
  have a: "awaiting conn_500 (Responds resp_500)" unfolding conn_500_def by (rule conn0_awaiting)
  have s: "StatusCode resp_500 \<noteq> 200" by (simp add: resp_500_def)
  have 1: "sublist ''500'' (''invalid status 500 (500 Internal Server Error)'' @ [CHR 0x0A] @ ''server error'')"
    by code_simp
  have 2: "sublist ''server error'' (''invalid status 500 (500 Internal Server Error)'' @ [CHR 0x0A] @ ''server error'')"
    by code_simp
  show ?thesis
    using Close_reports_status[OF a] a s 1 2 by (simp add: resp_500_def dec_int_500)
qed

text \<open>
  Claim C4 as stated fails: a response of status 500 whose body breaks off after
  \<open>server error\<close>. The read of the body returns an error, the message stays empty, and
  the text of the error holds no byte of the body.
\<close>

theorem Close_body_read_fails_counterexample:
  "awaiting conn_cut (Responds resp_cut) \<and> StatusCode resp_cut = 500
   \<and> Body resp_cut = (''server error'', Some (LibError ''unexpected EOF''))
   \<and> fst (Close conn_cut) =
       Ret (Some (Errorf (''invalid status 500 (500 Internal Server Error)'' @ [CHR 0x0A])))
   \<and> \<not> sublist ''server error'' (''invalid status 500 (500 Internal Server Error)'' @ [CHR 0x0A])"
proof -
  have a: "awaiting conn_cut (Responds resp_cut)" unfolding conn_cut_def by (rule conn0_awaiting)
  have c: "fst (Close conn_cut) = Ret (httpRoutine_result (Responds resp_cut))"
    using a by (rule Close_awaiting(1))
  have n: "\<not> sublist ''server error'' (''invalid status 500 (500 Internal Server Error)'' @ [CHR 0x0A])"
    by code_simp
  show ?thesis
    using a n unfolding c
    by (simp add: httpRoutine_result_def resp_cut_def ReadAll_limited_def dec_int_500 newline_def)
qed

text \<open>
  Claim C10. The first \<open>Close\<close> returns what the goroutine sent. After it, whatever
  the goroutine and the caller do next (steps of the goroutine, writes, more calls of
  \<open>Close\<close>), a call of \<open>Close\<close> returns nil: the channel is empty, and it is closed or
  the goroutine is about to close it.
\<close>

theorem Close_again_nil:
  assumes "awaiting hec h"
  shows "fst (Close hec) = Ret (httpRoutine_result h)
       \<and> fst (Close (run J acts (snd (Close hec)))) = Ret None"
proof -
  have "drained (snd (Close hec))" using assms by (rule Close_awaiting(2))
  then have "drained (run J acts (snd (Close hec)))" by (rule drained_run)
  then have "fst (Close (run J acts (snd (Close hec)))) = Ret None" by (rule Close_drained(1))
  then show ?thesis using Close_awaiting(1)[OF assms] by simp
qed

text \<open>
  The theorem of C10 on a connection whose request got status 500: the first \<open>Close\<close>
  returns the error, the later ones nil.
\<close>

theorem Close_again_nil_witness:
  "awaiting conn_500 (Responds resp_500)
   \<and> fst (Close conn_500) =
       Ret (Some (Errorf (''invalid status 500 (500 Internal Server Error)'' @ [CHR 0x0A] @ ''server error'')))
   \<and> fst (Close (snd (Close conn_500))) = Ret None
   \<and> fst (Close (run json0 [CallClose, Step, CallWrite None, CallClose] (snd (Close conn_500)))) = Ret None"
proof -
  have a: "awaiting conn_500 (Responds resp_500)" unfolding conn_500_def by (rule conn0_awaiting)
  have r: "httpRoutine_result (Responds resp_500) =
      Some (Errorf (''invalid status 500 (500 Internal Server Error)'' @ [CHR 0x0A] @ ''server error''))"
    by (simp add: httpRoutine_result_def resp_500_def ReadAll_limited_def dec_int_500 newline_def)
  show ?thesis
    using Close_again_nil[OF a, of json0 "[]"]
      Close_again_nil[OF a, of json0 "[CallClose, Step, CallWrite None, CallClose]"] a r
    by simp
qed

subsection \<open>Construction\<close>

lemma newHecConn_conn0: "newHecConn net0 ok_200 None ''gen'' gc0 0 = (Some conn0, None)"
  by (simp add: newHecConn_def hecIgst_literal_def test_def net0_def gc0_def ok_200_def conn0_def Let_def)

lemma newHecConn_fails:
  assumes "url_Parse N (HEC gc) = Inl e
     \<or> (\<exists>u. url_Parse N (HEC gc) = Inr u \<and>
          (ResolveTCPAddr N (Host u) = Inl e
           \<or> (\<exists>raddr. ResolveTCPAddr N (Host u) = Inr raddr \<and>
                (DialTCP N raddr = Inl e
                 \<or> (\<exists>conn. DialTCP N raddr = Inr conn \<and>
                      (SplitHostPort N (LocalAddr conn) = Inl e
                       \<or> (\<exists>a. SplitHostPort N (LocalAddr conn) = Inr a \<and> conn_Close conn = Some e)))))))"
  shows "snd (newHecConn N h rm nm gc t) = Some e
       \<and> (case fst (newHecConn N h rm nm gc t) of
            None \<Rightarrow> True
          | Some hec \<Rightarrow> wtr hec = None \<and> routine hec = NotStarted)"
  using assms
  by (auto simp: newHecConn_def test_def hecIgst_literal_def Let_def split: sum.splits prod.splits)

text \<open>
  Claim C3 on the code. The probe connection has the local address
  \<open>[fe80::1%eth0]:40000\<close>: \<open>SplitHostPort\<close> succeeds and \<open>net.ParseIP\<close> returns nil for
  \<open>fe80::1%eth0\<close>. \<open>test\<close> checks no nil, so \<open>newHecConn\<close> returns a started connection
  and no error, and \<open>SourceIP\<close> of it is nil. For the failures that \<open>test\<close> does check
  see \<open>newHecConn_fails\<close>.
\<close>

theorem newHecConn_unparsed_local_address:
  "newHecConn net_zone h rm nm gc t =
     (Some ((hecIgst_literal nm gc t \<lparr>Host = ''[fe80::2%eth0]:8088''\<rparr>)
              \<lparr>routine := Running h, wtr := Some \<lparr>body = [], wclosed = False, room = rm\<rparr>\<rparr>),
      None)
   \<and> SourceIP ((hecIgst_literal nm gc t \<lparr>Host = ''[fe80::2%eth0]:8088''\<rparr>)
              \<lparr>routine := Running h, wtr := Some \<lparr>body = [], wclosed = False, room = rm\<rparr>\<rparr>)
       = (None, None)"
  by (simp add: newHecConn_def test_def net_zone_def hecIgst_literal_def SourceIP_def Let_def)

lemma newHecConn_refused:
  "newHecConn net_refused h rm nm gc t =
     (Some (hecIgst_literal nm gc t \<lparr>Host = ''10.0.0.2:8088''\<rparr>), Some (LibError ''connection refused''))"
  by (simp add: newHecConn_def test_def net_refused_def net0_def hecIgst_literal_def Let_def)

subsection \<open>Event mode\<close>

lemma hello_not_json: "compactJSON ''hello'' = None"
  by code_simp

lemma number_is_json: "compactJSON ''123'' = Some ''123''"
  by code_simp

text \<open>
  Claim C1 on the code. \<open>sendEvent\<close> hands the payload to the encoder as a
  \<open>json.RawMessage\<close> and never calls \<open>setData\<close>. The payload \<open>hello\<close> is not JSON:
  encoding fails and nothing is written. The payload \<open>123\<close> is written as it is,
  \<open>{"event":123,"sourcetype":"default"}\<close>. \<open>setData\<close>, which nothing calls, would have
  quoted \<open>hello\<close>.
\<close>

theorem sendEvent_embeds_raw:
  "sendEvent J hec (Some \<lparr>TS = ts, Tag_of = tag, Data = ''hello''\<rparr>) = (Ret (Some MarshalerError), hec)
   \<and> sendEvent json0 conn_event (Some \<lparr>TS = \<lparr>Sec = 0, Nsec = 0\<rparr>, Tag_of = 0, Data = ''123''\<rparr>) =
       (Ret None,
        conn_event\<lparr>wtr := Some \<lparr>body = ''{'' @ dq @ ''event'' @ dq @ '':123,'' @ dq @ ''sourcetype'' @ dq
                                          @ '':'' @ dq @ ''default'' @ dq @ ''}'' @ [CHR 0x0A],
                                   wclosed = False, room = None\<rparr>\<rparr>)
   \<and> setData J osc ''hello'' = (quoteString J ''hello'', osc)"
proof -
  have t0: "timeFloat \<lparr>Sec = 0, Nsec = 0\<rparr> = 0"
    by (simp add: timeFloat_def unixToInternal_value word_sless_alt)
  have 1: "sendEvent J hec (Some \<lparr>TS = ts, Tag_of = tag, Data = ''hello''\<rparr>) = (Ret (Some MarshalerError), hec)"
    by (simp add: sendEvent_def Encode_def Marshal_hecent_def hello_not_json)
  have 2: "sendEvent json0 conn_event (Some \<lparr>TS = \<lparr>Sec = 0, Nsec = 0\<rparr>, Tag_of = 0, Data = ''123''\<rparr>) =
       (Ret None,
        conn_event\<lparr>wtr := Some \<lparr>body = ''{'' @ dq @ ''event'' @ dq @ '':123,'' @ dq @ ''sourcetype'' @ dq
                                          @ '':'' @ dq @ ''default'' @ dq @ ''}'' @ [CHR 0x0A],
                                   wclosed = False, room = None\<rparr>\<rparr>)"
    by (simp add: sendEvent_def Encode_def Marshal_hecent_def number_is_json t0 conn_event_def conn0_def
        json0_def field_def pipe_Write_def newline_def dq_def)
  have 3: "setData J osc ''hello'' = (quoteString J ''hello'', osc)"
    by (simp add: setData_def)
  show ?thesis using 1 2 3 by simp
qed

end
